theory Spec2Isabelle
  imports Complex_Main
begin

section \<open>Strings and paths\<close>

text \<open>
  File names and configuration strings are HOL strings. The launcher lower-cases a file's
  suffix before comparing it with its list of extensions; on the characters of a HOL
  string, the only ones whose lower-case form is an ASCII letter are \<open>A\<close> to \<open>Z\<close>, so
  \<open>lower\<close> maps these and leaves every other character alone.
\<close>

definition lower_char :: "char \<Rightarrow> char" where
  "lower_char c =
     (case map_of (zip ''ABCDEFGHIJKLMNOPQRSTUVWXYZ'' ''abcdefghijklmnopqrstuvwxyz'') c of
        None \<Rightarrow> c
      | Some d \<Rightarrow> d)"

definition lower :: "string \<Rightarrow> string" where
  "lower s = map lower_char s"

text \<open>\<open>str.strip()\<close>: white space is removed at both ends.\<close>

definition isspace :: "char \<Rightarrow> bool" where
  "isspace c =
     (c \<in> set [CHR 0x09, CHR 0x0A, CHR 0x0B, CHR 0x0C, CHR 0x0D, CHR 0x1C, CHR 0x1D, CHR 0x1E,
                CHR 0x1F, CHR 0x20, CHR 0x85, CHR 0xA0])"

definition strip :: "string \<Rightarrow> string" where
  "strip s = rev (dropWhile isspace (rev (dropWhile isspace s)))"

text \<open>\<open>str.split(sep)\<close> with a separator of one character, and \<open>sep.join(xs)\<close>.\<close>

fun split :: "char \<Rightarrow> string \<Rightarrow> string list" where
  "split c [] = [[]]"
| "split c (x # xs) =
     (if x = c then [] # split c xs
      else (case split c xs of [] \<Rightarrow> [[x]] | w # ws \<Rightarrow> (x # w) # ws))"

fun join :: "string \<Rightarrow> string list \<Rightarrow> string" where
  "join sep [] = []"
| "join sep [x] = x"
| "join sep (x # y # ys) = x @ sep @ join sep (y # ys)"

text \<open>\<open>str.rfind(c)\<close>: the index of the last occurrence, \<open>-1\<close> when there is none.\<close>

definition rfind :: "char \<Rightarrow> string \<Rightarrow> int" where
  "rfind c s =
     (if c \<in> set s then int (length s) - 1 - int (length (takeWhile (\<lambda>x. x \<noteq> c) (rev s)))
      else - 1)"

text \<open>\<open>str(n)\<close> for an integer: its decimal digits, with a sign when negative.\<close>

definition digit_char :: "nat \<Rightarrow> char" where
  "digit_char d = ''0123456789'' ! d"

fun digits :: "nat \<Rightarrow> string" where
  "digits n = (if n < 10 then [digit_char n] else digits (n div 10) @ [digit_char (n mod 10)])"

declare digits.simps [simp del]

definition str_int :: "int \<Rightarrow> string" where
  "str_int i = (if i < 0 then CHR ''-'' # digits (nat (- i)) else digits (nat i))"

text \<open>
  A \<open>pathlib.Path\<close> on a POSIX system: a root (\<open>''''\<close>, \<open>''/''\<close> or \<open>''//''\<close>) and the
  components after it. Parsing a string drops empty components and \<open>.\<close>; the text of a
  path with no root and no component is \<open>.\<close>. The suffix of a path is the part of its
  last component from the last dot on, unless that dot is the first or the last
  character of the component.
\<close>

record path =
  root :: string
  parts :: "string list"

definition Path :: "string \<Rightarrow> path" where
  "Path s =
     \<lparr>root = (if take 1 s \<noteq> ''/'' then ''''
              else if take 2 s = ''//'' \<and> take 3 s \<noteq> ''///'' then ''//'' else ''/''),
      parts = filter (\<lambda>x. x \<noteq> '''' \<and> x \<noteq> ''.'') (split CHR ''/'' s)\<rparr>"

definition str_path :: "path \<Rightarrow> string" where
  "str_path p = (let s = root p @ join ''/'' (parts p) in if s = [] then ''.'' else s)"

definition joinpath :: "path \<Rightarrow> string \<Rightarrow> path" where
  "joinpath p n = p\<lparr>parts := parts p @ [n]\<rparr>"

definition path_name :: "path \<Rightarrow> string" where
  "path_name p = (if parts p = [] then '''' else last (parts p))"

definition suffix :: "path \<Rightarrow> string" where
  "suffix p =
     (let n = path_name p; i = rfind CHR ''.'' n
      in if 0 < i \<and> i < int (length n) - 1 then drop (nat i) n else '''')"

definition is_absolute :: "path \<Rightarrow> bool" where
  "is_absolute p = (root p \<noteq> [])"

section \<open>The file system\<close>

text \<open>
  The file system as the launcher sees it through \<open>stat\<close> and \<open>listdir\<close>: \<open>stat\<close> gives
  the type and modification time of what a path string names (following symbolic links),
  or nothing when it names no file; \<open>listdir\<close> gives the names in a directory in the
  order in which the system enumerates them. The empty string names no file. The file
  system does not change while one operation runs, and its queries are answered (no
  permission is missing; a system that refuses queries is modelled further down, with
  the save finder on it). A modification time is a number of seconds since the epoch,
  a floating-point number in the launcher and a real number here; it can be 0 or
  negative.
\<close>

datatype file_type = S_IFREG | S_IFDIR | S_IFOTHER

record stat_result =
  st_mode :: file_type
  st_mtime :: real

record filesystem =
  stat :: "string \<Rightarrow> stat_result option"
  listdir :: "string \<Rightarrow> string list"

datatype exn = FileNotFoundError string | OSError string | IndexError | PasswordDeleteError

definition os_stat :: "filesystem \<Rightarrow> string \<Rightarrow> stat_result option" where
  "os_stat fs s = (if s = [] then None else stat fs s)"

definition path_stat :: "filesystem \<Rightarrow> path \<Rightarrow> exn + stat_result" where
  "path_stat fs p =
     (case os_stat fs (str_path p) of
        None \<Rightarrow> Inl (FileNotFoundError (str_path p))
      | Some st \<Rightarrow> Inr st)"

definition exists :: "filesystem \<Rightarrow> path \<Rightarrow> bool" where
  "exists fs p = (case os_stat fs (str_path p) of None \<Rightarrow> False | Some st \<Rightarrow> True)"

definition is_dir :: "filesystem \<Rightarrow> path \<Rightarrow> bool" where
  "is_dir fs p = (case os_stat fs (str_path p) of None \<Rightarrow> False | Some st \<Rightarrow> st_mode st = S_IFDIR)"

definition is_file :: "filesystem \<Rightarrow> path \<Rightarrow> bool" where
  "is_file fs p = (case os_stat fs (str_path p) of None \<Rightarrow> False | Some st \<Rightarrow> st_mode st = S_IFREG)"

definition iterdir :: "filesystem \<Rightarrow> path \<Rightarrow> path list" where
  "iterdir fs p = map (joinpath p) (listdir fs (str_path p))"

section \<open>The save finder\<close>

definition exts :: "string list" where
  "exts = [''.zip'', ''.save'', ''.dat'', ''.autosave'', ''.quicksave'']"

text \<open>
  The loop of \<open>find_latest_save\<close> over the children of the directory, with the pair
  \<open>(latest, latest_time)\<close> as its state. Reading the modification time of a file that
  has gone raises.
\<close>

fun scan :: "filesystem \<Rightarrow> path list \<Rightarrow> string option \<times> real \<Rightarrow> exn + string option" where
  "scan fs [] (latest, latest_time) = Inr latest"
| "scan fs (f # rest) (latest, latest_time) =
     (if is_file fs f \<and> lower (suffix f) \<in> set exts then
        (case path_stat fs f of
           Inl e \<Rightarrow> Inl e
         | Inr st \<Rightarrow>
             (if st_mtime st > latest_time then scan fs rest (Some (str_path f), st_mtime st)
              else scan fs rest (latest, latest_time)))
      else scan fs rest (latest, latest_time))"

definition find_latest_save :: "filesystem \<Rightarrow> string \<Rightarrow> exn + string option" where
  "find_latest_save fs saves_dir =
     (if saves_dir = [] then Inr None
      else let p = Path saves_dir in
        if \<not> exists fs p \<or> \<not> is_dir fs p then Inr None
        else scan fs (iterdir fs p) (None, 0))"

section \<open>The save finder on a system that can refuse a query\<close>

text \<open>
  A system is a file system together with the paths whose status it refuses to give and
  the directories whose listing it refuses, for want of a permission. A refused query
  raises \<open>PermissionError\<close>, an \<open>OSError\<close>; \<open>Path.exists\<close>, \<open>Path.is_dir\<close> and
  \<open>Path.is_file\<close> answer \<open>False\<close> only where the path names nothing and pass that error
  on; \<open>find_latest_save\<close> catches nothing. A query returns the system with its answer,
  so that what the finder does to the system is part of its result.
  \<open>find_latest_save\<close> above is this function on a system that refuses nothing.
\<close>

record sys =
  tree :: filesystem
  stat_refused :: "string \<Rightarrow> bool"
  listdir_refused :: "string \<Rightarrow> bool"











section \<open>The credential store\<close>

text \<open>
  The system keyring, as a map from a service name and a user name to a secret.
  \<open>keyring.delete_password\<close> raises when there is nothing to delete.
\<close>

type_synonym keyring = "string \<times> string \<Rightarrow> string option"

definition APP_NAME :: string where
  "APP_NAME = ''FactorioLauncher''"

definition SERVICE_PREFIX :: string where
  "SERVICE_PREFIX = APP_NAME @ ''.server''"

definition set_password :: "keyring \<Rightarrow> string \<Rightarrow> string \<Rightarrow> string \<Rightarrow> keyring" where
  "set_password k service username password = k((service, username) \<mapsto> password)"

definition get_password :: "keyring \<Rightarrow> string \<Rightarrow> string \<Rightarrow> string option" where
  "get_password k service username = k (service, username)"

definition delete_password :: "keyring \<Rightarrow> string \<Rightarrow> string \<Rightarrow> exn + keyring" where
  "delete_password k service username =
     (case k (service, username) of
        None \<Rightarrow> Inl PasswordDeleteError
      | Some v \<Rightarrow> Inr (k((service, username) := None)))"

definition store_server_password :: "keyring \<Rightarrow> string \<Rightarrow> string \<Rightarrow> keyring" where
  "store_server_password k n password =
     set_password k (SERVICE_PREFIX @ '':'' @ n) ''password'' password"

definition get_server_password :: "keyring \<Rightarrow> string \<Rightarrow> string option" where
  "get_server_password k n = get_password k (SERVICE_PREFIX @ '':'' @ n) ''password''"

definition delete_server_password :: "keyring \<Rightarrow> string \<Rightarrow> keyring" where
  "delete_server_password k n =
     (case delete_password k (SERVICE_PREFIX @ '':'' @ n) ''password'' of
        Inl e \<Rightarrow> k
      | Inr k' \<Rightarrow> k')"

section \<open>The configuration and the launcher's state\<close>

record server =
  name :: string
  host :: string
  port :: int
  user :: string

record config =
  factorio_path :: string
  saves_dir :: string
  servers :: "server list"

definition default_config :: config where
  "default_config = \<lparr>factorio_path = '''', saves_dir = '''', servers = []\<rparr>"

text \<open>
  What the launcher calls and does not define: the JSON library (\<open>json_loads\<close> gives
  nothing where \<open>json.loads\<close> raises) and the system's answer to a request to create a
  process (\<open>popen_error args\<close> is the message of the error \<open>subprocess.Popen\<close> raises
  for \<open>args\<close>, nothing when the child is created).
\<close>

record env =
  json_loads :: "string \<Rightarrow> config option"
  json_dumps :: "config \<Rightarrow> string"
  popen_error :: "string list \<Rightarrow> string option"

datatype notice = Warning string string | Critical string string | StatusMessage string

text \<open>
  The state an operation of the main window reads and changes: the file system, the
  keyring, the window's configuration \<open>cfg\<close>, the text of the configuration file
  (nothing when the file does not exist), the argument vectors handed to
  \<open>subprocess.Popen\<close> so far, and the message boxes and status messages shown so far.
  The servers table shows the servers of \<open>cfg\<close> row by row and is not kept apart.
  Writing the configuration file and storing in the keyring succeed.
\<close>

record world =
  files :: filesystem
  keyring :: keyring
  cfg :: config
  config_file :: "string option"
  popen_calls :: "string list list"
  notices :: "notice list"

datatype outcome = Returned | Raised exn

definition str_exn :: "exn \<Rightarrow> string" where
  "str_exn x =
     (case x of
        FileNotFoundError s \<Rightarrow> s
      | OSError s \<Rightarrow> s
      | IndexError \<Rightarrow> ''list index out of range''
      | PasswordDeleteError \<Rightarrow> ''Password not found'')"

definition notify :: "notice \<Rightarrow> world \<Rightarrow> world" where
  "notify n w = w\<lparr>notices := notices w @ [n]\<rparr>"

definition Popen :: "env \<Rightarrow> string list \<Rightarrow> world \<Rightarrow> outcome \<times> world" where
  "Popen e args w =
     (let w1 = w\<lparr>popen_calls := popen_calls w @ [args]\<rparr>
      in case popen_error e args of
           None \<Rightarrow> (Returned, w1)
         | Some msg \<Rightarrow> (Raised (OSError msg), w1))"

subsection \<open>The configuration file\<close>

definition ensure_config_path :: "env \<Rightarrow> world \<Rightarrow> world" where
  "ensure_config_path e w =
     (case config_file w of
        None \<Rightarrow> w\<lparr>config_file := Some (json_dumps e default_config)\<rparr>
      | Some s \<Rightarrow> w)"

text \<open>
  \<open>load_config\<close> catches every exception of reading and parsing, so it returns a
  configuration in every case.
\<close>

definition load_config :: "env \<Rightarrow> world \<Rightarrow> config \<times> world" where
  "load_config e w =
     (let w1 = ensure_config_path e w
      in case config_file w1 of
           None \<Rightarrow> (default_config, w1)
         | Some s \<Rightarrow>
             (case json_loads e s of
                None \<Rightarrow> (default_config, w1)
              | Some c \<Rightarrow> (c, w1)))"

definition save_config :: "env \<Rightarrow> config \<Rightarrow> world \<Rightarrow> world" where
  "save_config e c w = (ensure_config_path e w)\<lparr>config_file := Some (json_dumps e c)\<rparr>"

subsection \<open>The server dialog\<close>

text \<open>
  The dialog's fields when it closes, and whether it was accepted. \<open>get_data\<close> strips
  the name, the host and the user, and leaves the password as typed.
\<close>

record server_dialog =
  name_edit :: string
  host_edit :: string
  port_edit :: int
  user_edit :: string
  password_edit :: string

datatype dialog = Rejected | Accepted server_dialog

record server_data =
  d_name :: string
  d_host :: string
  d_port :: int
  d_user :: string
  d_password :: string

definition get_data :: "server_dialog \<Rightarrow> server_data" where
  "get_data dlg =
     \<lparr>d_name = strip (name_edit dlg), d_host = strip (host_edit dlg), d_port = port_edit dlg,
      d_user = strip (user_edit dlg), d_password = password_edit dlg\<rparr>"

subsection \<open>Server operations\<close>

text \<open>
  The selection of the servers table is the selected row, if any. The dialog an operation
  opens is given with the operation.
\<close>

definition add_server :: "env \<Rightarrow> world \<Rightarrow> dialog \<Rightarrow> outcome \<times> world" where
  "add_server e w dlg =
     (case dlg of
        Rejected \<Rightarrow> (Returned, w)
      | Accepted form \<Rightarrow>
          (let d = get_data form in
           if d_name d = [] then (Returned, notify (Warning ''Error'' ''Server must have a name.'') w)
           else
             let w1 = w\<lparr>keyring := store_server_password (keyring w) (d_name d) (d_password d)\<rparr>;
                 entry = \<lparr>name = d_name d, host = d_host d, port = d_port d, user = d_user d\<rparr>;
                 w2 = w1\<lparr>cfg := (cfg w1)\<lparr>servers := servers (cfg w1) @ [entry]\<rparr>\<rparr>
             in (Returned, save_config e (cfg w2) w2)))"

definition edit_server :: "env \<Rightarrow> world \<Rightarrow> nat option \<Rightarrow> dialog \<Rightarrow> outcome \<times> world" where
  "edit_server e w sel dlg =
     (case sel of
        None \<Rightarrow> (Returned, notify (Warning ''Edit'' ''Select a server to edit.'') w)
      | Some row \<Rightarrow>
          if length (servers (cfg w)) \<le> row then (Raised IndexError, w)
          else
            (let s = servers (cfg w) ! row in
             case dlg of
               Rejected \<Rightarrow> (Returned, w)
             | Accepted form \<Rightarrow>
                 (let d = get_data form;
                      w1 = (if d_password d \<noteq> []
                            then w\<lparr>keyring := store_server_password (keyring w) (d_name d) (d_password d)\<rparr>
                            else w);
                      s' = s\<lparr>name := d_name d, host := d_host d, port := d_port d, user := d_user d\<rparr>;
                      w2 = w1\<lparr>cfg := (cfg w1)\<lparr>servers := (servers (cfg w1))[row := s']\<rparr>\<rparr>
                  in (Returned, save_config e (cfg w2) w2))))"

definition remove_server :: "env \<Rightarrow> world \<Rightarrow> nat option \<Rightarrow> outcome \<times> world" where
  "remove_server e w sel =
     (case sel of
        None \<Rightarrow> (Returned, w)
      | Some row \<Rightarrow>
          if length (servers (cfg w)) \<le> row then (Raised IndexError, w)
          else
            (let n = name (servers (cfg w) ! row);
                 w1 = w\<lparr>cfg := (cfg w)\<lparr>servers := take row (servers (cfg w)) @ drop (Suc row) (servers (cfg w))\<rparr>\<rparr>;
                 w2 = save_config e (cfg w1) w1
             in (Returned, w2\<lparr>keyring := delete_server_password (keyring w2) n\<rparr>)))"

subsection \<open>Launching the game\<close>

definition ellipsis :: string where
  "ellipsis = [CHR 0xE2, CHR 0x80, CHR 0xA6]"

definition launch_normal :: "env \<Rightarrow> world \<Rightarrow> outcome \<times> world" where
  "launch_normal e w =
     (let factorio = factorio_path (cfg w) in
      if \<not> exists (files w) (Path factorio)
      then (Returned, notify (Warning ''Error'' ''Factorio executable not found.'') w)
      else
        (case Popen e [factorio] w of
           (Raised x, w1) \<Rightarrow> (Raised x, w1)
         | (Returned, w1) \<Rightarrow> (Returned, notify (StatusMessage ''Launched Factorio.'') w1)))"

definition continue_latest_save :: "env \<Rightarrow> world \<Rightarrow> outcome \<times> world" where
  "continue_latest_save e w =
     (let factorio = factorio_path (cfg w) in
      case find_latest_save (files w) (saves_dir (cfg w)) of
        Inl x \<Rightarrow> (Raised x, w)
      | Inr latest \<Rightarrow>
          (case latest of
             None \<Rightarrow> (Returned, notify (Warning ''Continue'' ''No save found.'') w)
           | Some l \<Rightarrow>
               if l = [] then (Returned, notify (Warning ''Continue'' ''No save found.'') w)
               else
                 (case Popen e [factorio, ''--load-game'', l] w of
                    (Raised x, w1) \<Rightarrow> (Raised x, w1)
                  | (Returned, w1) \<Rightarrow>
                      (Returned, notify (StatusMessage (''Launching latest save'' @ ellipsis)) w1))))"

definition connect_to_server :: "env \<Rightarrow> world \<Rightarrow> nat option \<Rightarrow> outcome \<times> world" where
  "connect_to_server e w sel =
     (case sel of
        None \<Rightarrow> (Returned, notify (Warning ''Connect'' ''Select a server first.'') w)
      | Some row \<Rightarrow>
          if length (servers (cfg w)) \<le> row then (Raised IndexError, w)
          else
            (let s = servers (cfg w) ! row;
                 factorio = factorio_path (cfg w)
             in
             if \<not> exists (files w) (Path factorio)
             then (Returned, notify (Warning ''Error'' ''Factorio executable not found.'') w)
             else
               (let h = host s;
                    p = str_int (port s);
                    pw = (case get_server_password (keyring w) (name s) of
                            None \<Rightarrow> ''''
                          | Some v \<Rightarrow> if v = [] then '''' else v);
                    args = [factorio, ''--mp-connect'', h @ '':'' @ p]
                             @ (if pw \<noteq> [] then [''--password'', pw] else [])
                in
                case Popen e args w of
                  (Raised x, w1) \<Rightarrow> (Returned, notify (Critical ''Launch Failed'' (str_exn x)) w1)
                | (Returned, w1) \<Rightarrow>
                    (Returned,
                     notify (StatusMessage (''Connecting to '' @ h @ '':'' @ p @ ellipsis)) w1))))"

section \<open>Notions used to state the properties\<close>

text \<open>
  The children of a directory that the loop of \<open>find_latest_save\<close> looks at further, in
  the order of enumeration: regular files with a listed extension. \<open>mtime\<close> is the
  modification time \<open>stat\<close> reports for a path (only used for paths that exist).
\<close>

definition candidates :: "filesystem \<Rightarrow> path \<Rightarrow> path list" where
  "candidates fs p = filter (\<lambda>f. is_file fs f \<and> lower (suffix f) \<in> set exts) (iterdir fs p)"

definition mtime :: "filesystem \<Rightarrow> path \<Rightarrow> real" where
  "mtime fs f = (case os_stat fs (str_path f) of None \<Rightarrow> 0 | Some st \<Rightarrow> st_mtime st)"


section \<open>Sample states\<close>

text \<open>File systems are written as a table of paths and a table of directory listings.\<close>

definition reg :: "real \<Rightarrow> stat_result" where
  "reg m = \<lparr>st_mode = S_IFREG, st_mtime = m\<rparr>"

definition dir :: "real \<Rightarrow> stat_result" where
  "dir m = \<lparr>st_mode = S_IFDIR, st_mtime = m\<rparr>"

definition mk_fs :: "(string \<times> stat_result) list \<Rightarrow> (string \<times> string list) list \<Rightarrow> filesystem" where
  "mk_fs sts lss =
     \<lparr>stat = map_of sts, listdir = (\<lambda>d. case map_of lss d of None \<Rightarrow> [] | Some ns \<Rightarrow> ns)\<rparr>"

text \<open>The directory of the specification's example: a newest file that is no save.\<close>

definition spec_saves :: filesystem where
  "spec_saves =
     mk_fs [(''/home/u/saves'', dir 99), (''/home/u/saves/a.zip'', reg 10),
            (''/home/u/saves/b.save'', reg 30), (''/home/u/saves/c.txt'', reg 99)]
           [(''/home/u/saves'', [''a.zip'', ''b.save'', ''c.txt''])]"

text \<open>Two saves of the same age, in upper case, after an older one.\<close>

definition tied_saves :: filesystem where
  "tied_saves =
     mk_fs [(''/home/u/saves'', dir 40), (''/home/u/saves/old.dat'', reg 20),
            (''/home/u/saves/one.ZIP'', reg 40), (''/home/u/saves/two.Save'', reg 40)]
           [(''/home/u/saves'', [''old.dat'', ''one.ZIP'', ''two.Save''])]"

text \<open>A save whose modification time is the epoch, and one from the day before it.\<close>

definition epoch_saves :: filesystem where
  "epoch_saves =
     mk_fs [(''/home/u/saves'', dir 0), (''/home/u/saves/world.zip'', reg 0)]
           [(''/home/u/saves'', [''world.zip''])]"


definition stale_saves :: filesystem where
  "stale_saves =
     mk_fs [(''/srv/saves'', dir 5), (''/srv/saves/a.zip'', reg 0),
            (''/srv/saves/b.autosave'', reg (- 5)), (''/srv/saves/notes.txt'', reg 99)]
           [(''/srv/saves'', [''a.zip'', ''b.autosave'', ''notes.txt''])]"

text \<open>
  A system with the game installed and one save; the same with the saves directory given
  relative to the working directory; and one where nothing is installed, so that the
  path of the executable is empty (\<open>.\<close> is the working directory).
\<close>

definition home_fs :: filesystem where
  "home_fs =
     mk_fs [(''.'', dir 7), (''/usr/bin/factorio'', reg 3), (''/home/u/saves'', dir 9),
            (''/home/u/saves/game.zip'', reg 9), (''saves'', dir 9), (''saves/game.zip'', reg 9)]
           [(''/home/u/saves'', [''game.zip'']), (''saves'', [''game.zip''])]"

definition play :: server where
  "play = \<lparr>name = ''X'', host = ''play.example.org'', port = 34197, user = ''u''\<rparr>"

definition home_cfg :: config where
  "home_cfg =
     \<lparr>factorio_path = ''/usr/bin/factorio'', saves_dir = ''/home/u/saves'', servers = [play]\<rparr>"

text \<open>
  A stand-in for the JSON library in the samples: it writes a configuration as a text of
  its fields, reads the text of the default configuration back, and rejects every other
  text, \<open>{not json\<close> among them. \<open>spawns\<close> creates every process asked for;
  \<open>refuses\<close> fails every request, as the system does for a file that cannot be
  executed.
\<close>

definition sample_dumps :: "config \<Rightarrow> string" where
  "sample_dumps c =
     ''{factorio_path: '' @ factorio_path c @ '', saves_dir: '' @ saves_dir c @ '', servers: [''
       @ join '', '' (map (\<lambda>s. ''{name: '' @ name s @ '', host: '' @ host s @ '', port: ''
                               @ str_int (port s) @ '', user: '' @ user s @ ''}'') (servers c))
       @ '']}''"

definition sample_loads :: "string \<Rightarrow> config option" where
  "sample_loads s = (if s = sample_dumps default_config then Some default_config else None)"

definition spawns :: env where
  "spawns = \<lparr>json_loads = sample_loads, json_dumps = sample_dumps, popen_error = (\<lambda>args. None)\<rparr>"

definition refuses :: env where
  "refuses =
     \<lparr>json_loads = sample_loads, json_dumps = sample_dumps,
      popen_error = (\<lambda>args. Some ''[Errno 13] Permission denied'')\<rparr>"

definition home :: world where
  "home =
     \<lparr>files = home_fs, keyring = Map.empty, cfg = home_cfg,
      config_file = Some (sample_dumps home_cfg), popen_calls = [], notices = []\<rparr>"

definition home_relative :: world where
  "home_relative = home\<lparr>cfg := home_cfg\<lparr>saves_dir := ''saves''\<rparr>\<rparr>"

definition fresh :: world where
  "fresh = home\<lparr>cfg := home_cfg\<lparr>factorio_path := ''''\<rparr>\<rparr>"

definition home_unset :: world where
  "home_unset = home\<lparr>cfg := home_cfg\<lparr>saves_dir := ''''\<rparr>\<rparr>"

definition corrupt :: world where
  "corrupt = home\<lparr>config_file := Some ''{not json''\<rparr>"

text \<open>Dialogs: a server with and without a password, one with no name, a new password.\<close>

definition form_Y :: server_dialog where
  "form_Y =
     \<lparr>name_edit = '' Y '', host_edit = ''y.example.org'', port_edit = 34197, user_edit = '''',
      password_edit = ''p''\<rparr>"

definition form_open :: server_dialog where
  "form_open =
     \<lparr>name_edit = ''Open'', host_edit = ''open.example.org'', port_edit = 34197, user_edit = '''',
      password_edit = ''''\<rparr>"

definition form_unnamed :: server_dialog where
  "form_unnamed =
     \<lparr>name_edit = '''', host_edit = ''y.example.org'', port_edit = 34197, user_edit = '''',
      password_edit = ''p''\<rparr>"

definition form_X :: "string \<Rightarrow> string \<Rightarrow> server_dialog" where
  "form_X n p =
     \<lparr>name_edit = n, host_edit = ''play.example.org'', port_edit = 34197, user_edit = ''u'',
      password_edit = p\<rparr>"

text \<open>The state of \<open>home\<close> with the secret \<open>p\<close> stored for the server \<open>X\<close>.\<close>

definition home_secret :: world where
  "home_secret = home\<lparr>keyring := store_server_password Map.empty ''X'' ''p''\<rparr>"


definition locked_fs :: filesystem where
  "locked_fs =
     mk_fs [(''/srv/locked'', dir 5), (''/srv/locked/notes.txt'', reg 5),
            (''/root/saves'', dir 5)]
           [(''/srv/locked'', [''notes.txt''])]"

definition locked :: sys where
  "locked =
     \<lparr>tree = locked_fs, stat_refused = (\<lambda>s. s = ''/root/saves''),
      listdir_refused = (\<lambda>s. s = ''/srv/locked'')\<rparr>"

text \<open>The state after a server without a password has been added to \<open>home\<close>.\<close>

definition home_open :: world where
  "home_open = snd (add_server spawns home (Accepted form_open))"

section \<open>Properties of the save finder\<close>

lemma is_file_path_stat:
  "is_file fs f \<Longrightarrow> \<exists>st. path_stat fs f = Inr st \<and> st_mtime st = mtime fs f"
  by (auto simp: is_file_def path_stat_def mtime_def split: option.splits)

lemma scan_skip:
  "\<not> (is_file fs f \<and> lower (suffix f) \<in> set exts) \<Longrightarrow> scan fs (f # rest) (l, t) = scan fs rest (l, t)"
  by auto

lemma scan_take:
  assumes "is_file fs f" "lower (suffix f) \<in> set exts"
  shows "scan fs (f # rest) (l, t) =
           (if t < mtime fs f then scan fs rest (Some (str_path f), mtime fs f) else scan fs rest (l, t))"
proof -
  from is_file_path_stat [OF assms(1)] obtain st
    where "path_stat fs f = Inr st" "st_mtime st = mtime fs f" by blast
  with assms show ?thesis by simp
qed

lemma scan_filter:
  "scan fs xs (l, t) = scan fs (filter (\<lambda>f. is_file fs f \<and> lower (suffix f) \<in> set exts) xs) (l, t)"
proof (induction xs arbitrary: l t)
  case Nil
  show ?case by simp
next
  case (Cons f rest)
  show ?case
  proof (cases "is_file fs f \<and> lower (suffix f) \<in> set exts")
    case True
    then show ?thesis using Cons.IH by (simp add: scan_take del: scan.simps)
  next
    case False
    have "scan fs (f # rest) (l, t) = scan fs rest (l, t)"
      using False by (rule scan_skip)
    moreover have "filter (\<lambda>f. is_file fs f \<and> lower (suffix f) \<in> set exts) (f # rest) =
        filter (\<lambda>f. is_file fs f \<and> lower (suffix f) \<in> set exts) rest"
      using False by auto
    ultimately show ?thesis using Cons.IH by simp
  qed
qed

lemma scan_spec:
  assumes "\<forall>f \<in> set cs. is_file fs f \<and> lower (suffix f) \<in> set exts"
  shows "(scan fs cs (l, t) = Inr l \<and> (\<forall>g \<in> set cs. mtime fs g \<le> t)) \<or>
         (\<exists>pre f post. cs = pre @ f # post \<and> scan fs cs (l, t) = Inr (Some (str_path f)) \<and>
            t < mtime fs f \<and> (\<forall>g \<in> set pre. mtime fs g < mtime fs f) \<and>
            (\<forall>g \<in> set post. mtime fs g \<le> mtime fs f))"
  using assms
proof (induction cs arbitrary: l t)
  case Nil
  show ?case by simp
next
  case (Cons c cs)
  have c: "is_file fs c" "lower (suffix c) \<in> set exts" using Cons.prems by auto
  have rest: "\<forall>f \<in> set cs. is_file fs f \<and> lower (suffix f) \<in> set exts" using Cons.prems by auto
  show ?case
  proof (cases "t < mtime fs c")
    case True
    have step: "scan fs (c # cs) (l, t) = scan fs cs (Some (str_path c), mtime fs c)"
      using True by (simp add: scan_take [OF c] del: scan.simps)
    from Cons.IH [OF rest, of "Some (str_path c)" "mtime fs c"]
    show ?thesis
    proof (elim disjE exE conjE)
      assume "scan fs cs (Some (str_path c), mtime fs c) = Inr (Some (str_path c))"
        and "\<forall>g \<in> set cs. mtime fs g \<le> mtime fs c"
      then have "c # cs = [] @ c # cs \<and> scan fs (c # cs) (l, t) = Inr (Some (str_path c)) \<and>
            t < mtime fs c \<and> (\<forall>g \<in> set []. mtime fs g < mtime fs c) \<and>
            (\<forall>g \<in> set cs. mtime fs g \<le> mtime fs c)"
        using True step by simp
      then show ?thesis by blast
    next
      fix pre f post
      assume a: "cs = pre @ f # post"
        "scan fs cs (Some (str_path c), mtime fs c) = Inr (Some (str_path f))"
        "mtime fs c < mtime fs f" "\<forall>g \<in> set pre. mtime fs g < mtime fs f"
        "\<forall>g \<in> set post. mtime fs g \<le> mtime fs f"
      then have "c # cs = (c # pre) @ f # post \<and> scan fs (c # cs) (l, t) = Inr (Some (str_path f)) \<and>
            t < mtime fs f \<and> (\<forall>g \<in> set (c # pre). mtime fs g < mtime fs f) \<and>
            (\<forall>g \<in> set post. mtime fs g \<le> mtime fs f)"
        using True step by auto
      then show ?thesis by blast
    qed
  next
    case False
    have step: "scan fs (c # cs) (l, t) = scan fs cs (l, t)"
      using False by (simp add: scan_take [OF c] del: scan.simps)
    from Cons.IH [OF rest, of l t]
    show ?thesis
    proof (elim disjE exE conjE)
      assume "scan fs cs (l, t) = Inr l" and "\<forall>g \<in> set cs. mtime fs g \<le> t"
      then show ?thesis using False step by auto
    next
      fix pre f post
      assume a: "cs = pre @ f # post"
        "scan fs cs (l, t) = Inr (Some (str_path f))"
        "t < mtime fs f" "\<forall>g \<in> set pre. mtime fs g < mtime fs f"
        "\<forall>g \<in> set post. mtime fs g \<le> mtime fs f"
      then have "c # cs = (c # pre) @ f # post \<and> scan fs (c # cs) (l, t) = Inr (Some (str_path f)) \<and>
            t < mtime fs f \<and> (\<forall>g \<in> set (c # pre). mtime fs g < mtime fs f) \<and>
            (\<forall>g \<in> set post. mtime fs g \<le> mtime fs f)"
        using False step by auto
      then show ?thesis by blast
    qed
  qed
qed

lemma find_latest_save_dir:
  assumes "d \<noteq> []" "is_dir fs (Path d)"
  shows "find_latest_save fs d = scan fs (candidates fs (Path d)) (None, 0)"
proof -
  have "exists fs (Path d)" using assms(2) by (auto simp: is_dir_def exists_def split: option.splits)
  then show ?thesis
    using assms scan_filter [of fs "iterdir fs (Path d)" None 0]
    by (simp add: find_latest_save_def candidates_def)
qed

lemma find_latest_save_not_dir:
  "d = [] \<or> \<not> exists fs (Path d) \<or> \<not> is_dir fs (Path d) \<Longrightarrow> find_latest_save fs d = Inr None"
  by (auto simp: find_latest_save_def)

lemma str_path_nonempty: "str_path p \<noteq> []"
  by (simp add: str_path_def Let_def)


text \<open>The definitions that evaluate a query on a sample file system.\<close>

lemmas fs_eval = find_latest_save_def Path_def exists_def is_dir_def is_file_def os_stat_def
  str_path_def iterdir_def joinpath_def suffix_def path_name_def rfind_def lower_def
  lower_char_def exts_def path_stat_def mk_fs_def reg_def dir_def candidates_def mtime_def


lemma find_latest_save_cases:
  assumes "d \<noteq> []" "is_dir fs (Path d)"
  shows "(find_latest_save fs d = Inr None \<and> (\<forall>g \<in> set (candidates fs (Path d)). mtime fs g \<le> 0)) \<or>
         (\<exists>pre f post. candidates fs (Path d) = pre @ f # post \<and>
            find_latest_save fs d = Inr (Some (str_path f)) \<and> 0 < mtime fs f \<and>
            (\<forall>g \<in> set pre. mtime fs g < mtime fs f) \<and>
            (\<forall>g \<in> set post. mtime fs g \<le> mtime fs f))"
proof -
  have "\<forall>f \<in> set (candidates fs (Path d)). is_file fs f \<and> lower (suffix f) \<in> set exts"
    by (simp add: candidates_def)
  from scan_spec [OF this, of None 0] show ?thesis
    by (simp only: find_latest_save_dir [OF assms])
qed

text \<open>
  C1, as amended. For every directory, \<open>find_latest_save\<close> looks only at the direct
  children that are regular files whose extension, lower-cased, is one of \<open>.zip\<close>,
  \<open>.save\<close>, \<open>.dat\<close>, \<open>.autosave\<close>, \<open>.quicksave\<close>. It returns the path of the one with
  the greatest modification time when that time is greater than 0, and of the first such
  file in the order of enumeration when several share it (every candidate before the
  returned one is strictly older, none after it is newer); it returns nothing when no
  candidate has a modification time greater than 0. Over the files \<open>.zip\<close> (time 10),
  \<open>.save\<close> (time 30) and \<open>.txt\<close> (time 99) it returns the \<open>.save\<close> file.
\<close>

theorem find_latest_save_latest:
  assumes "d \<noteq> []" and "is_dir fs (Path d)"
  shows "((find_latest_save fs d = Inr None \<and>
            (\<forall>g \<in> set (candidates fs (Path d)). mtime fs g \<le> 0)) \<or>
          (\<exists>pre f post. candidates fs (Path d) = pre @ f # post \<and>
             find_latest_save fs d = Inr (Some (str_path f)) \<and> 0 < mtime fs f \<and>
             (\<forall>g \<in> set pre. mtime fs g < mtime fs f) \<and>
             (\<forall>g \<in> set post. mtime fs g \<le> mtime fs f))) \<and>
         find_latest_save spec_saves ''/home/u/saves'' = Inr (Some ''/home/u/saves/b.save'')"
proof
  show "(find_latest_save fs d = Inr None \<and>
            (\<forall>g \<in> set (candidates fs (Path d)). mtime fs g \<le> 0)) \<or>
          (\<exists>pre f post. candidates fs (Path d) = pre @ f # post \<and>
             find_latest_save fs d = Inr (Some (str_path f)) \<and> 0 < mtime fs f \<and>
             (\<forall>g \<in> set pre. mtime fs g < mtime fs f) \<and>
             (\<forall>g \<in> set post. mtime fs g \<le> mtime fs f))"
    using assms by (rule find_latest_save_cases)
  show "find_latest_save spec_saves ''/home/u/saves'' = Inr (Some ''/home/u/saves/b.save'')"
    by (simp add: spec_saves_def fs_eval)
qed

text \<open>
  A directory with an older save and two saves of the same age: the first of the two is
  returned.
\<close>

theorem find_latest_save_latest_witness:
  "''/home/u/saves'' \<noteq> [] \<and> is_dir tied_saves (Path ''/home/u/saves'') \<and>
   candidates tied_saves (Path ''/home/u/saves'') =
     [joinpath (Path ''/home/u/saves'') ''old.dat'', joinpath (Path ''/home/u/saves'') ''one.ZIP'',
      joinpath (Path ''/home/u/saves'') ''two.Save''] \<and>
   mtime tied_saves (joinpath (Path ''/home/u/saves'') ''old.dat'') = 20 \<and>
   mtime tied_saves (joinpath (Path ''/home/u/saves'') ''one.ZIP'') = 40 \<and>
   mtime tied_saves (joinpath (Path ''/home/u/saves'') ''two.Save'') = 40 \<and>
   find_latest_save tied_saves ''/home/u/saves'' = Inr (Some ''/home/u/saves/one.ZIP'')"
  using find_latest_save_latest [of "''/home/u/saves''" tied_saves]
  by (simp add: tied_saves_def fs_eval)

text \<open>
  C1 as stated fails: in a directory whose only save has the modification time 0, that
  save is the candidate with the greatest modification time, and nothing is returned.
\<close>

theorem find_latest_save_latest_counterexample:
  "is_dir epoch_saves (Path ''/home/u/saves'') \<and>
   candidates epoch_saves (Path ''/home/u/saves'') = [joinpath (Path ''/home/u/saves'') ''world.zip''] \<and>
   find_latest_save epoch_saves ''/home/u/saves'' = Inr None"
  by (simp add: epoch_saves_def fs_eval)


text \<open>
  C10. In a directory where every candidate has a modification time of at most 0,
  \<open>find_latest_save\<close> returns nothing: the running maximum starts at 0 and a candidate
  replaces it only when strictly greater.
\<close>

theorem find_latest_save_sentinel:
  assumes "\<forall>g \<in> set (candidates fs (Path d)). mtime fs g \<le> 0"
  shows "find_latest_save fs d = Inr None"
proof (cases "d = [] \<or> \<not> exists fs (Path d) \<or> \<not> is_dir fs (Path d)")
  case True
  then show ?thesis by (rule find_latest_save_not_dir)
next
  case False
  then have d: "d \<noteq> []" "is_dir fs (Path d)" by auto
  from find_latest_save_cases [OF d] show ?thesis
  proof (elim disjE exE conjE)
    assume "find_latest_save fs d = Inr None"
    then show ?thesis .
  next
    fix pre f post
    assume "candidates fs (Path d) = pre @ f # post" "0 < mtime fs f"
    then have False using assms by auto
    then show ?thesis ..
  qed
qed

text \<open>Two saves, of modification times 0 and -5, beside a newer file that is no save.\<close>

theorem find_latest_save_sentinel_witness:
  "candidates stale_saves (Path ''/srv/saves'') =
     [joinpath (Path ''/srv/saves'') ''a.zip'', joinpath (Path ''/srv/saves'') ''b.autosave''] \<and>
   mtime stale_saves (joinpath (Path ''/srv/saves'') ''a.zip'') = 0 \<and>
   mtime stale_saves (joinpath (Path ''/srv/saves'') ''b.autosave'') = - 5 \<and>
   find_latest_save stale_saves ''/srv/saves'' = Inr None"
proof -
  have c: "candidates stale_saves (Path ''/srv/saves'') =
     [joinpath (Path ''/srv/saves'') ''a.zip'', joinpath (Path ''/srv/saves'') ''b.autosave'']"
    by (simp add: stale_saves_def fs_eval)
  have a: "mtime stale_saves (joinpath (Path ''/srv/saves'') ''a.zip'') = 0"
    by (simp add: stale_saves_def fs_eval)
  have b: "mtime stale_saves (joinpath (Path ''/srv/saves'') ''b.autosave'') = - 5"
    by (simp add: stale_saves_def fs_eval)
  have "\<forall>g \<in> set (candidates stale_saves (Path ''/srv/saves'')). mtime stale_saves g \<le> 0"
    using a b by (simp add: c)
  from find_latest_save_sentinel [OF this] show ?thesis using a b c by simp
qed

section \<open>Properties of the credential store and of the state\<close>

lemma get_store:
  "get_server_password (store_server_password k a p) b =
     (if a = b then Some p else get_server_password k b)"
  by (simp add: get_server_password_def store_server_password_def get_password_def set_password_def)

lemma get_delete:
  "get_server_password (delete_server_password k a) b =
     (if a = b then None else get_server_password k b)"
  by (simp add: get_server_password_def delete_server_password_def get_password_def
      delete_password_def split: option.splits)

lemma store_keeps:
  "k key = Some v \<Longrightarrow> store_server_password k n p key \<noteq> None"
  by (simp add: store_server_password_def set_password_def)

lemma save_config_frame [simp]:
  "keyring (save_config e c w) = keyring w"
  "cfg (save_config e c w) = cfg w"
  "files (save_config e c w) = files w"
  "popen_calls (save_config e c w) = popen_calls w"
  "notices (save_config e c w) = notices w"
  by (simp_all add: save_config_def ensure_config_path_def split: option.splits)

lemma Popen_calls: "popen_calls (snd (Popen e args w)) = popen_calls w @ [args]"
  by (simp add: Popen_def Let_def split: option.splits)

lemma is_absolute_Path: "is_absolute (Path s) = (take 1 s = ''/'')"
  by (simp add: is_absolute_def Path_def)

lemma str_path_joinpath_abs:
  "root p \<noteq> [] \<Longrightarrow> take 1 (root p) = ''/'' \<Longrightarrow> take 1 (str_path (joinpath p n)) = ''/''"
  by (cases "root p") (simp_all add: str_path_def joinpath_def Let_def)

lemma root_Path: "is_absolute (Path d) \<Longrightarrow> root (Path d) \<noteq> [] \<and> take 1 (root (Path d)) = ''/''"
  by (simp add: is_absolute_def Path_def split: if_splits)

lemma find_latest_save_returns: "\<exists>r. find_latest_save fs d = Inr r"
proof (cases "d = [] \<or> \<not> exists fs (Path d) \<or> \<not> is_dir fs (Path d)")
  case True
  then have "find_latest_save fs d = Inr None" by (rule find_latest_save_not_dir)
  then show ?thesis by blast
next
  case False
  then have d: "d \<noteq> []" "is_dir fs (Path d)" by auto
  from find_latest_save_cases [OF d] show ?thesis by blast
qed

lemma find_latest_save_Some:
  assumes "find_latest_save fs d = Inr (Some s)"
  shows "\<exists>n. s = str_path (joinpath (Path d) n)"
proof -
  have d: "d \<noteq> []" "is_dir fs (Path d)"
    using assms find_latest_save_not_dir [of d fs] by auto
  from find_latest_save_cases [OF d] assms obtain pre f post
    where f: "candidates fs (Path d) = pre @ f # post" "s = str_path f" by auto
  then have "f \<in> set (candidates fs (Path d))" by simp
  then have "f \<in> set (iterdir fs (Path d))" by (simp add: candidates_def)
  then show ?thesis using f by (auto simp: iterdir_def)
qed

section \<open>Properties of the save finder on a system that can refuse a query\<close>






















section \<open>The sample states, evaluated\<close>

lemma home_secret_simps:
  "cfg home_secret = home_cfg" "popen_calls home_secret = []" "files home_secret = home_fs"
  "get_server_password (keyring home_secret) ''X'' = Some ''p''"
  by (simp_all add: home_secret_def home_def get_store)

lemma home_simps:
  "cfg home = home_cfg" "popen_calls home = []" "files home = home_fs" "notices home = []"
  "get_server_password (keyring home) n = None"
  by (simp_all add: home_def get_server_password_def get_password_def)

lemma home_cfg_simps:
  "factorio_path home_cfg = ''/usr/bin/factorio''" "saves_dir home_cfg = ''/home/u/saves''"
  "servers home_cfg = [play]"
  by (simp_all add: home_cfg_def)

lemma play_simps:
  "name play = ''X''" "host play = ''play.example.org''" "str_int (port play) = ''34197''"
  by (simp_all add: play_def str_int_def digits.simps digit_char_def)

lemma factorio_exists: "exists home_fs (Path ''/usr/bin/factorio'')"
  by (simp add: home_fs_def fs_eval)

section \<open>Properties of launching\<close>

text \<open>
  C3, as amended. With a server selected and the executable found, \<open>connect_to_server\<close>
  hands \<open>subprocess.Popen\<close> the argument vector of the executable, \<open>--mp-connect\<close> and
  \<open>host:port\<close>, followed by \<open>--password\<close> and the secret exactly when the keyring
  holds a secret for the server's name and that secret is not empty. When no secret is
  stored, or the stored secret is the empty string, nothing follows \<open>host:port\<close>.
\<close>

theorem connect_to_server_args:
  assumes "row < length (servers (cfg w))"
    and "exists (files w) (Path (factorio_path (cfg w)))"
  shows "popen_calls (snd (connect_to_server e w (Some row))) =
           popen_calls w @
             [[factorio_path (cfg w), ''--mp-connect'',
               host (servers (cfg w) ! row) @ '':'' @ str_int (port (servers (cfg w) ! row))] @
              (case get_server_password (keyring w) (name (servers (cfg w) ! row)) of
                 None \<Rightarrow> []
               | Some pw \<Rightarrow> if pw = [] then [] else [''--password'', pw])]"
  using assms
  by (simp add: connect_to_server_def Let_def Popen_def notify_def
      split: option.splits prod.splits outcome.splits)

text \<open>The server \<open>X\<close> of the sample, with the secret \<open>p\<close> stored and with none.\<close>

theorem connect_to_server_args_witness:
  "0 < length (servers (cfg home_secret)) \<and>
   exists (files home_secret) (Path (factorio_path (cfg home_secret))) \<and>
   get_server_password (keyring home_secret) ''X'' = Some ''p'' \<and>
   popen_calls (snd (connect_to_server spawns home_secret (Some 0))) =
     [[''/usr/bin/factorio'', ''--mp-connect'', ''play.example.org:34197'', ''--password'', ''p'']] \<and>
   get_server_password (keyring home) ''X'' = None \<and>
   popen_calls (snd (connect_to_server spawns home (Some 0))) =
     [[''/usr/bin/factorio'', ''--mp-connect'', ''play.example.org:34197'']]"
  using connect_to_server_args [of 0 home_secret spawns] connect_to_server_args [of 0 home spawns]
  by (simp add: home_secret_simps home_simps home_cfg_simps play_simps factorio_exists)

text \<open>
  C3 as stated fails: after a server has been added with an empty password, the keyring
  holds a secret for its name (the empty string), and no \<open>--password\<close> pair is appended.
\<close>

theorem connect_to_server_args_counterexample:
  "name (servers (cfg home_open) ! 1) = ''Open'' \<and>
   get_server_password (keyring home_open) ''Open'' = Some '''' \<and>
   popen_calls (snd (connect_to_server spawns home_open (Some 1))) =
     [[''/usr/bin/factorio'', ''--mp-connect'', ''open.example.org:34197'']]"
  by (simp add: home_open_def add_server_def get_data_def form_open_def strip_def isspace_def
      Let_def home_simps home_cfg_simps get_store connect_to_server_def factorio_exists
      Popen_def spawns_def notify_def str_int_def digits.simps digit_char_def)

text \<open>
  C4. Where the system refuses to create the process, \<open>launch_normal\<close> and
  \<open>continue_latest_save\<close> end with the exception of \<open>subprocess.Popen\<close> and show no
  notice; only \<open>connect_to_server\<close> catches it and shows \<open>Launch Failed\<close> with the
  message.
\<close>

theorem launch_uncaught:
  "launch_normal refuses home =
     (Raised (OSError ''[Errno 13] Permission denied''),
      home\<lparr>popen_calls := [[''/usr/bin/factorio'']]\<rparr>) \<and>
   continue_latest_save refuses home =
     (Raised (OSError ''[Errno 13] Permission denied''),
      home\<lparr>popen_calls := [[''/usr/bin/factorio'', ''--load-game'', ''/home/u/saves/game.zip'']]\<rparr>) \<and>
   connect_to_server refuses home (Some 0) =
     (Returned,
      home\<lparr>popen_calls := [[''/usr/bin/factorio'', ''--mp-connect'', ''play.example.org:34197'']],
           notices := [Critical ''Launch Failed'' ''[Errno 13] Permission denied'']\<rparr>)"
proof (intro conjI)
  show "launch_normal refuses home =
     (Raised (OSError ''[Errno 13] Permission denied''),
      home\<lparr>popen_calls := [[''/usr/bin/factorio'']]\<rparr>)"
    by (simp add: launch_normal_def home_simps home_cfg_simps factorio_exists Popen_def
        refuses_def)
  have "find_latest_save home_fs ''/home/u/saves'' = Inr (Some ''/home/u/saves/game.zip'')"
    by (simp add: home_fs_def fs_eval)
  then show "continue_latest_save refuses home =
     (Raised (OSError ''[Errno 13] Permission denied''),
      home\<lparr>popen_calls := [[''/usr/bin/factorio'', ''--load-game'', ''/home/u/saves/game.zip'']]\<rparr>)"
    by (simp add: continue_latest_save_def home_simps home_cfg_simps Popen_def refuses_def)
  show "connect_to_server refuses home (Some 0) =
     (Returned,
      home\<lparr>popen_calls := [[''/usr/bin/factorio'', ''--mp-connect'', ''play.example.org:34197'']],
           notices := [Critical ''Launch Failed'' ''[Errno 13] Permission denied'']\<rparr>)"
    by (simp add: connect_to_server_def home_simps home_cfg_simps play_simps factorio_exists
        Popen_def refuses_def notify_def str_exn_def)
qed

text \<open>
  What \<open>launch_normal\<close> does on either side of its test: a warning and no call of
  \<open>subprocess.Popen\<close> when \<open>Path(factorio).exists()\<close> is false, one call with the
  executable alone otherwise.
\<close>

lemma launch_normal_not_found:
  assumes "\<not> exists (files w) (Path (factorio_path (cfg w)))"
  shows "launch_normal e w = (Returned, notify (Warning ''Error'' ''Factorio executable not found.'') w)"
  using assms by (simp add: launch_normal_def)

lemma launch_normal_found:
  assumes "exists (files w) (Path (factorio_path (cfg w)))"
  shows "popen_calls (snd (launch_normal e w)) = popen_calls w @ [[factorio_path (cfg w)]]"
  using assms
  by (simp add: launch_normal_def Popen_def Let_def notify_def split: option.splits)

text \<open>
  C5. With the empty string as the path of the executable (the configuration of a system
  where no installation was found), the path names no file, yet \<open>Path('''').exists()\<close>
  holds, since the empty path is read as the working directory: \<open>launch_normal\<close> shows
  no warning, calls \<open>subprocess.Popen\<close> and ends with its exception.
\<close>

theorem launch_normal_empty_path:
  "factorio_path (cfg fresh) = '''' \<and>
   os_stat (files fresh) '''' = None \<and>
   exists (files fresh) (Path '''') \<and>
   launch_normal refuses fresh =
     (Raised (OSError ''[Errno 13] Permission denied''), fresh\<lparr>popen_calls := [['''']]\<rparr>)"
  by (simp add: fresh_def home_def home_cfg_def launch_normal_def Popen_def refuses_def
      home_fs_def fs_eval)

text \<open>
  C6, as amended. \<open>continue_latest_save\<close> calls \<open>find_latest_save\<close> on the configured
  saves directory, which returns. When it returns nothing, a warning \<open>No save found.\<close>
  is shown and \<open>subprocess.Popen\<close> is not called. When it returns a path, \<open>subprocess.Popen\<close>
  is called with the executable, \<open>--load-game\<close> and that path as returned: the saves
  directory joined with the file's name, which is absolute whenever the configured saves
  directory is.
\<close>

theorem continue_latest_save_args:
  "(\<exists>r. find_latest_save (files w) (saves_dir (cfg w)) = Inr r) \<and>
   (find_latest_save (files w) (saves_dir (cfg w)) = Inr None \<longrightarrow>
      continue_latest_save e w = (Returned, notify (Warning ''Continue'' ''No save found.'') w) \<and>
      popen_calls (snd (continue_latest_save e w)) = popen_calls w) \<and>
   (\<forall>s. find_latest_save (files w) (saves_dir (cfg w)) = Inr (Some s) \<longrightarrow>
      popen_calls (snd (continue_latest_save e w)) =
        popen_calls w @ [[factorio_path (cfg w), ''--load-game'', s]] \<and>
      (is_absolute (Path (saves_dir (cfg w))) \<longrightarrow> is_absolute (Path s)))"
proof (intro conjI allI impI)
  show "\<exists>r. find_latest_save (files w) (saves_dir (cfg w)) = Inr r"
    using find_latest_save_returns by blast
next
  assume "find_latest_save (files w) (saves_dir (cfg w)) = Inr None"
  then show "continue_latest_save e w = (Returned, notify (Warning ''Continue'' ''No save found.'') w)"
    by (simp add: continue_latest_save_def)
next
  assume "find_latest_save (files w) (saves_dir (cfg w)) = Inr None"
  then show "popen_calls (snd (continue_latest_save e w)) = popen_calls w"
    by (simp add: continue_latest_save_def notify_def)
next
  fix s assume s: "find_latest_save (files w) (saves_dir (cfg w)) = Inr (Some s)"
  from find_latest_save_Some [OF s] have "s \<noteq> []" by (auto simp: str_path_nonempty)
  then show "popen_calls (snd (continue_latest_save e w)) =
        popen_calls w @ [[factorio_path (cfg w), ''--load-game'', s]]"
    using s by (simp add: continue_latest_save_def Popen_def Let_def notify_def split: option.splits)
next
  fix s assume s: "find_latest_save (files w) (saves_dir (cfg w)) = Inr (Some s)"
    and a: "is_absolute (Path (saves_dir (cfg w)))"
  from find_latest_save_Some [OF s] obtain n
    where n: "s = str_path (joinpath (Path (saves_dir (cfg w))) n)" by blast
  have r: "root (Path (saves_dir (cfg w))) \<noteq> []" "take 1 (root (Path (saves_dir (cfg w)))) = ''/''"
    using root_Path [OF a] by blast+
  have "take 1 (str_path (joinpath (Path (saves_dir (cfg w))) n)) = ''/''"
    by (rule str_path_joinpath_abs [OF r])
  then show "is_absolute (Path s)" by (simp only: is_absolute_Path n)
qed

text \<open>The sample with an absolute saves directory, and with none configured.\<close>

theorem continue_latest_save_args_witness:
  "find_latest_save (files home) (saves_dir (cfg home)) = Inr (Some ''/home/u/saves/game.zip'') \<and>
   is_absolute (Path (saves_dir (cfg home))) \<and>
   popen_calls (snd (continue_latest_save spawns home)) =
     [[''/usr/bin/factorio'', ''--load-game'', ''/home/u/saves/game.zip'']] \<and>
   is_absolute (Path ''/home/u/saves/game.zip'') \<and>
   find_latest_save (files home_unset) (saves_dir (cfg home_unset)) = Inr None \<and>
   continue_latest_save spawns home_unset =
     (Returned, notify (Warning ''Continue'' ''No save found.'') home_unset)"
proof -
  have f: "find_latest_save (files home) (saves_dir (cfg home)) = Inr (Some ''/home/u/saves/game.zip'')"
    by (simp add: home_simps home_cfg_simps home_fs_def fs_eval)
  have a: "is_absolute (Path (saves_dir (cfg home)))"
    by (simp add: home_simps home_cfg_simps is_absolute_Path)
  have u: "find_latest_save (files home_unset) (saves_dir (cfg home_unset)) = Inr None"
    by (simp add: home_unset_def find_latest_save_def)
  show ?thesis
    using continue_latest_save_args [of home spawns] continue_latest_save_args [of home_unset spawns]
      f a u
    by (simp add: home_simps home_cfg_simps)
qed

text \<open>
  C6 as stated fails: with the saves directory configured as \<open>saves\<close>, the path handed
  to the game is \<open>saves/game.zip\<close>, which is not absolute.
\<close>

theorem continue_latest_save_args_counterexample:
  "saves_dir (cfg home_relative) = ''saves'' \<and>
   find_latest_save (files home_relative) ''saves'' = Inr (Some ''saves/game.zip'') \<and>
   popen_calls (snd (continue_latest_save spawns home_relative)) =
     [[''/usr/bin/factorio'', ''--load-game'', ''saves/game.zip'']] \<and>
   \<not> is_absolute (Path ''saves/game.zip'')"
proof -
  have f: "find_latest_save home_fs ''saves'' = Inr (Some ''saves/game.zip'')"
    by (simp add: home_fs_def fs_eval)
  then show ?thesis
    by (simp add: home_relative_def home_def home_cfg_def continue_latest_save_def Popen_def
        spawns_def notify_def is_absolute_Path)
qed

section \<open>Properties of the configuration file\<close>

text \<open>
  C7. When the configuration file exists and its text does not parse as JSON,
  \<open>load_config\<close> returns the default configuration, raises nothing, and leaves the
  state, the file's text included, as it was.
\<close>

theorem load_config_unparsable:
  assumes "config_file w = Some s" and "json_loads e s = None"
  shows "load_config e w = (default_config, w)"
  using assms by (simp add: load_config_def ensure_config_path_def)

text \<open>The sample whose configuration file holds \<open>{not json\<close>.\<close>

theorem load_config_unparsable_witness:
  "config_file corrupt = Some ''{not json'' \<and> json_loads spawns ''{not json'' = None \<and>
   load_config spawns corrupt = (default_config, corrupt)"
proof -
  have c: "config_file corrupt = Some ''{not json''" by (simp add: corrupt_def)
  have j: "json_loads spawns ''{not json'' = None"
    by (simp add: spawns_def sample_loads_def sample_dumps_def default_config_def)
  from load_config_unparsable [OF c j] c j show ?thesis by simp
qed

section \<open>Properties of the server operations\<close>

lemma add_server_named:
  assumes "strip (name_edit form) \<noteq> []"
  shows "add_server e w (Accepted form) =
     (Returned,
      save_config e
        ((cfg w)\<lparr>servers := servers (cfg w) @
           [\<lparr>name = strip (name_edit form), host = strip (host_edit form),
             port = port_edit form, user = strip (user_edit form)\<rparr>]\<rparr>)
        (w\<lparr>keyring := store_server_password (keyring w) (strip (name_edit form)) (password_edit form),
           cfg := (cfg w)\<lparr>servers := servers (cfg w) @
             [\<lparr>name = strip (name_edit form), host = strip (host_edit form),
               port = port_edit form, user = strip (user_edit form)\<rparr>]\<rparr>\<rparr>))"
  using assms by (simp add: add_server_def get_data_def Let_def)

lemma remove_server_keyring:
  assumes "row < length (servers (cfg w))"
  shows "fst (remove_server e w (Some row)) = Returned"
    and "keyring (snd (remove_server e w (Some row))) =
           delete_server_password (keyring w) (name (servers (cfg w) ! row))"
    and "servers (cfg (snd (remove_server e w (Some row)))) =
           take row (servers (cfg w)) @ drop (Suc row) (servers (cfg w))"
  using assms by (simp_all add: remove_server_def Let_def)

text \<open>
  C8, as amended. For every name \<open>X\<close> that is not empty once stripped and every password
  \<open>p\<close>, accepting the add dialog with them appends an entry named \<open>X\<close> and the keyring
  then gives \<open>p\<close> for \<open>X\<close>; removing that entry afterwards restores the list of servers,
  and the keyring then gives nothing for \<open>X\<close>, which is a value and no error.
\<close>

theorem add_then_remove_credential:
  assumes "strip (name_edit form) \<noteq> []"
  shows "fst (add_server e w (Accepted form)) = Returned \<and>
    servers (cfg (snd (add_server e w (Accepted form)))) =
      servers (cfg w) @
        [\<lparr>name = strip (name_edit form), host = strip (host_edit form),
          port = port_edit form, user = strip (user_edit form)\<rparr>] \<and>
    get_server_password (keyring (snd (add_server e w (Accepted form)))) (strip (name_edit form)) =
      Some (password_edit form) \<and>
    fst (remove_server e (snd (add_server e w (Accepted form))) (Some (length (servers (cfg w))))) =
      Returned \<and>
    servers (cfg (snd (remove_server e (snd (add_server e w (Accepted form)))
      (Some (length (servers (cfg w))))))) = servers (cfg w) \<and>
    get_server_password
      (keyring (snd (remove_server e (snd (add_server e w (Accepted form)))
         (Some (length (servers (cfg w)))))))
      (strip (name_edit form)) = None"
proof -
  let ?w1 = "snd (add_server e w (Accepted form))"
  let ?n = "length (servers (cfg w))"
  have s: "servers (cfg ?w1) = servers (cfg w) @
        [\<lparr>name = strip (name_edit form), host = strip (host_edit form),
          port = port_edit form, user = strip (user_edit form)\<rparr>]"
    by (simp add: add_server_named [OF assms])
  have k: "keyring ?w1 =
      store_server_password (keyring w) (strip (name_edit form)) (password_edit form)"
    by (simp add: add_server_named [OF assms])
  have r: "?n < length (servers (cfg ?w1))" by (simp add: s)
  have n: "name (servers (cfg ?w1) ! ?n) = strip (name_edit form)" by (simp add: s)
  have a: "fst (add_server e w (Accepted form)) = Returned"
    by (simp add: add_server_named [OF assms])
  have g: "get_server_password (keyring ?w1) (strip (name_edit form)) = Some (password_edit form)"
    by (simp add: k get_store)
  have r1: "fst (remove_server e ?w1 (Some ?n)) = Returned"
    by (rule remove_server_keyring(1) [OF r])
  have r2: "servers (cfg (snd (remove_server e ?w1 (Some ?n)))) = servers (cfg w)"
    by (simp add: remove_server_keyring(3) [OF r] s)
  have r3: "get_server_password (keyring (snd (remove_server e ?w1 (Some ?n))))
      (strip (name_edit form)) = None"
    by (simp add: remove_server_keyring(2) [OF r] n get_delete)
  from a s g r1 r2 r3 show ?thesis by (intro conjI)
qed

text \<open>Adding \<open>Y\<close> (typed with blanks around it) with the password \<open>p\<close>, then removing it.\<close>

theorem add_then_remove_credential_witness:
  "strip (name_edit form_Y) = ''Y'' \<and> password_edit form_Y = ''p'' \<and>
   get_server_password (keyring (snd (add_server spawns home (Accepted form_Y)))) ''Y'' = Some ''p'' \<and>
   get_server_password
     (keyring (snd (remove_server spawns (snd (add_server spawns home (Accepted form_Y))) (Some 1))))
     ''Y'' = None"
proof -
  have n: "strip (name_edit form_Y) = ''Y''" by (simp add: form_Y_def strip_def isspace_def)
  have p: "password_edit form_Y = ''p''" by (simp add: form_Y_def)
  have l: "length (servers (cfg home)) = 1" by (simp add: home_simps home_cfg_simps)
  have "strip (name_edit form_Y) \<noteq> []" by (simp add: n)
  note t = add_then_remove_credential [OF this, of spawns home]
  from t have 1: "get_server_password (keyring (snd (add_server spawns home (Accepted form_Y))))
      (strip (name_edit form_Y)) = Some (password_edit form_Y)" by blast
  from t have 2: "get_server_password
      (keyring (snd (remove_server spawns (snd (add_server spawns home (Accepted form_Y)))
         (Some (length (servers (cfg home)))))))
      (strip (name_edit form_Y)) = None" by blast
  from 1 2 show ?thesis unfolding n p l by (simp add: n p)
qed

text \<open>
  C8 as stated fails for the empty name: the dialog is refused with a warning, nothing
  is stored, and the keyring gives nothing for the name.
\<close>

theorem add_then_remove_credential_counterexample:
  "strip (name_edit form_unnamed) = '''' \<and> password_edit form_unnamed = ''p'' \<and>
   notices (snd (add_server spawns home (Accepted form_unnamed))) =
     [Warning ''Error'' ''Server must have a name.''] \<and>
   get_server_password (keyring (snd (add_server spawns home (Accepted form_unnamed)))) '''' = None"
  by (simp add: form_unnamed_def strip_def add_server_def get_data_def notify_def home_simps)

lemma edit_server_accepted:
  assumes "row < length (servers (cfg w))"
  shows "keyring (snd (edit_server e w (Some row) (Accepted form))) =
     (if password_edit form = [] then keyring w
      else store_server_password (keyring w) (strip (name_edit form)) (password_edit form))"
  using assms by (simp add: edit_server_def get_data_def Let_def)

text \<open>
  C9, as amended. For every edit of a selected entry: a rejected dialog and an accepted
  one with an empty password leave the keyring as it was; an accepted one with a
  password stores it under the name entered; every name other than the name entered
  keeps its credential; no credential is ever deleted. So an edit that changes the name
  leaves the secret stored under the previous name retrievable there.
\<close>

theorem edit_server_credentials:
  assumes "row < length (servers (cfg w))"
  shows "keyring (snd (edit_server e w (Some row) Rejected)) = keyring w \<and>
    (password_edit form = [] \<longrightarrow>
       keyring (snd (edit_server e w (Some row) (Accepted form))) = keyring w) \<and>
    (password_edit form \<noteq> [] \<longrightarrow>
       get_server_password (keyring (snd (edit_server e w (Some row) (Accepted form))))
         (strip (name_edit form)) = Some (password_edit form)) \<and>
    (\<forall>n. n \<noteq> strip (name_edit form) \<longrightarrow>
       get_server_password (keyring (snd (edit_server e w (Some row) (Accepted form)))) n =
         get_server_password (keyring w) n) \<and>
    (\<forall>key v. keyring w key = Some v \<longrightarrow>
       keyring (snd (edit_server e w (Some row) (Accepted form))) key \<noteq> None) \<and>
    (name (servers (cfg w) ! row) \<noteq> strip (name_edit form) \<longrightarrow>
       get_server_password (keyring (snd (edit_server e w (Some row) (Accepted form))))
         (name (servers (cfg w) ! row)) =
       get_server_password (keyring w) (name (servers (cfg w) ! row)))"
proof (intro conjI allI impI)
  show "keyring (snd (edit_server e w (Some row) Rejected)) = keyring w"
    using assms by (simp add: edit_server_def)
next
  assume "password_edit form = []"
  then show "keyring (snd (edit_server e w (Some row) (Accepted form))) = keyring w"
    by (simp add: edit_server_accepted [OF assms])
next
  assume "password_edit form \<noteq> []"
  then show "get_server_password (keyring (snd (edit_server e w (Some row) (Accepted form))))
         (strip (name_edit form)) = Some (password_edit form)"
    by (simp add: edit_server_accepted [OF assms] get_store)
next
  fix n assume "n \<noteq> strip (name_edit form)"
  then show "get_server_password (keyring (snd (edit_server e w (Some row) (Accepted form)))) n =
         get_server_password (keyring w) n"
    by (auto simp: edit_server_accepted [OF assms] get_store)
next
  fix key v assume "keyring w key = Some v"
  then show "keyring (snd (edit_server e w (Some row) (Accepted form))) key \<noteq> None"
    using store_keeps [of "keyring w" key v "strip (name_edit form)" "password_edit form"]
    by (auto simp: edit_server_accepted [OF assms])
next
  assume "name (servers (cfg w) ! row) \<noteq> strip (name_edit form)"
  then show "get_server_password (keyring (snd (edit_server e w (Some row) (Accepted form))))
         (name (servers (cfg w) ! row)) =
       get_server_password (keyring w) (name (servers (cfg w) ! row))"
    by (auto simp: edit_server_accepted [OF assms] get_store)
qed

text \<open>Renaming \<open>X\<close> to \<open>Z\<close> with a new password: \<open>X\<close> keeps \<open>p\<close>, \<open>Z\<close> gets \<open>q\<close>.\<close>

theorem edit_server_credentials_witness:
  "0 < length (servers (cfg home_secret)) \<and>
   name (servers (cfg home_secret) ! 0) = ''X'' \<and>
   strip (name_edit (form_X ''Z'' ''q'')) = ''Z'' \<and>
   get_server_password (keyring home_secret) ''X'' = Some ''p'' \<and>
   get_server_password
     (keyring (snd (edit_server spawns home_secret (Some 0) (Accepted (form_X ''Z'' ''q''))))) ''X'' =
     Some ''p'' \<and>
   get_server_password
     (keyring (snd (edit_server spawns home_secret (Some 0) (Accepted (form_X ''Z'' ''q''))))) ''Z'' =
     Some ''q''"
proof -
  have r: "0 < length (servers (cfg home_secret))"
    by (simp add: home_secret_simps home_cfg_simps)
  have z: "strip (name_edit (form_X ''Z'' ''q'')) = ''Z''"
    by (simp add: form_X_def strip_def isspace_def)
  have q: "password_edit (form_X ''Z'' ''q'') = ''q''" by (simp add: form_X_def)
  from edit_server_credentials [OF r, of spawns "form_X ''Z'' ''q''"] show ?thesis
    by (simp add: z q home_secret_simps home_cfg_simps play_simps)
qed

text \<open>
  C9 as stated fails: an edit that keeps the name \<open>X\<close> and enters the password \<open>q\<close>
  replaces the credential stored under \<open>X\<close>.
\<close>

theorem edit_server_credentials_counterexample:
  "name (servers (cfg home_secret) ! 0) = ''X'' \<and>
   get_server_password (keyring home_secret) ''X'' = Some ''p'' \<and>
   get_server_password
     (keyring (snd (edit_server spawns home_secret (Some 0) (Accepted (form_X ''X'' ''q''))))) ''X'' =
     Some ''q''"
  by (simp add: home_secret_simps home_cfg_simps play_simps edit_server_def get_data_def
      form_X_def strip_def isspace_def Let_def get_store)

end
